theory Spec2Isabelle
  imports Main
begin

section \<open>The service worker cache of nexasec\<close>

text \<open>
  The repository ships two service workers for the same interception cache:
  \<^verbatim>\<open>frontend/src/service-worker.ts\<close> (suffix \<open>_ts\<close> below) and
  \<^verbatim>\<open>frontend/public/service-worker.js\<close> (suffix \<open>_js\<close>), the file that
  \<^verbatim>\<open>ServiceWorkerRegistration.tsx\<close> registers. Both are embedded, each from its own
  text, because they differ in their guards, their failure handling and in what they await.
\<close>

subsection \<open>Requests and responses\<close>

text \<open>
  A request as the handlers read it: \<^verbatim>\<open>req.method\<close> and, of \<^verbatim>\<open>new URL(req.url)\<close>,
  the properties \<^verbatim>\<open>protocol\<close> (with its colon) and \<^verbatim>\<open>origin\<close>; \<open>url_path\<close> is the
  rest of the URL. Two requests with the same fields are the same cache key.
\<close>

record request =
  "method" :: string
  url_protocol :: string
  url_origin :: string
  url_path :: string

datatype response_type = Basic | Cors | Default | Opaque | OpaqueRedirect

record response =
  status :: nat
  statusText :: string
  rtype :: response_type
  body :: string

text \<open>\<^verbatim>\<open>Response.ok\<close>: the status is in the range 200 to 299.\<close>

definition ok :: "response \<Rightarrow> bool" where
  "ok r = (200 \<le> status r \<and> status r \<le> 299)"

datatype error = NetworkError | StoreError

subsection \<open>The host's cache storage\<close>

text \<open>
  \<^verbatim>\<open>caches\<close> is a list of named caches in creation order (\<^verbatim>\<open>caches.keys()\<close> returns
  the names in that order, \<^verbatim>\<open>caches.match\<close> searches them in that order); a cache is a
  list of entries in insertion order.
\<close>

type_synonym cache = "(request \<times> response) list"
type_synonym cache_storage = "(string \<times> cache) list"

definition caches_keys :: "cache_storage \<Rightarrow> string list" where
  "caches_keys cs = map fst cs"

text \<open>\<^verbatim>\<open>caches.open(name)\<close>, when it succeeds, creates the cache if there is none.\<close>

definition caches_open :: "cache_storage \<Rightarrow> string \<Rightarrow> cache_storage" where
  "caches_open cs name = (if name \<in> set (caches_keys cs) then cs else cs @ [(name, [])])"


text \<open>\<^verbatim>\<open>cache.match(req)\<close> on the cache called \<open>name\<close> (no entry when there is no such cache).\<close>

definition cache_match :: "cache_storage \<Rightarrow> string \<Rightarrow> request \<Rightarrow> response option" where
  "cache_match cs name req = (case map_of cs name of None \<Rightarrow> None | Some c \<Rightarrow> map_of c req)"

text \<open>\<^verbatim>\<open>caches.match(req)\<close>: the first cache, in creation order, that has an entry.\<close>

fun caches_match :: "cache_storage \<Rightarrow> request \<Rightarrow> response option" where
  "caches_match [] req = None"
| "caches_match (nc # cs) req =
     (case map_of (snd nc) req of Some r \<Rightarrow> Some r | None \<Rightarrow> caches_match cs req)"

text \<open>A successful \<^verbatim>\<open>cache.put(req, resp)\<close>: the entry for \<open>req\<close> is replaced.\<close>

definition put_entry :: "cache \<Rightarrow> request \<Rightarrow> response \<Rightarrow> cache" where
  "put_entry c req resp = filter (\<lambda>e. fst e \<noteq> req) c @ [(req, resp)]"

definition cache_put :: "cache_storage \<Rightarrow> string \<Rightarrow> request \<Rightarrow> response \<Rightarrow> cache_storage" where
  "cache_put cs name req resp =
     map (\<lambda>nc. if fst nc = name then (fst nc, put_entry (snd nc) req resp) else nc) cs"

subsection \<open>The environment of one event\<close>

text \<open>
  What the host decides while a handler runs: the outcome of \<^verbatim>\<open>fetch(req)\<close> (a rejection
  or a response), whether \<^verbatim>\<open>caches.open\<close> succeeds, whether a \<^verbatim>\<open>cache.put\<close> of a given
  entry succeeds (quota, unsupported scheme), and the worker's own location. A fetch that
  resolves, resolves with a Response object, so the truthiness tests of the workers
  (\<^verbatim>\<open>networkResponse &&\<close>, \<^verbatim>\<open>!response\<close>) always pass and are not written below;
  \<^verbatim>\<open>clone()\<close> is the identity on the values of the model. \<^verbatim>\<open>cache.match\<close>,
  \<^verbatim>\<open>caches.match\<close>, \<^verbatim>\<open>caches.keys\<close> and \<^verbatim>\<open>caches.delete\<close> are taken not to fail.
\<close>

record env =
  fetch :: "request \<Rightarrow> error + response"
  open_ok :: bool
  put_ok :: "request \<Rightarrow> response \<Rightarrow> bool"
  location_protocol :: string
  location_origin :: string

definition CACHE_NAME :: string where
  "CACHE_NAME = ''nexa-security-cache-v1''"

text \<open>
  The result of a fetch event: the listener returned without \<^verbatim>\<open>respondWith\<close> (the browser
  performs the request itself), or the promise given to \<^verbatim>\<open>respondWith\<close> resolved with a
  response, or it rejected.
\<close>

datatype outcome = PassThrough | Responded response | Rejected error

text \<open>
  Work a handler has started and does not await: a revalidation fetch for a request, or
  (in the JavaScript worker) the write of a fetched response. The handler's result is its
  outcome, the storage at the moment the outcome is delivered, and the work still pending.
\<close>

datatype task = Revalidate request | StorePut request response

type_synonym handled = "outcome \<times> cache_storage \<times> task list"

text \<open>An attempted \<^verbatim>\<open>cache.put\<close> whose rejection is ignored.\<close>

definition try_put :: "env \<Rightarrow> cache_storage \<Rightarrow> request \<Rightarrow> response \<Rightarrow> cache_storage" where
  "try_put e cs req resp = (if put_ok e req resp then cache_put cs CACHE_NAME req resp else cs)"

subsection \<open>service-worker.ts\<close>

text \<open>
  The body of the async function given to \<^verbatim>\<open>respondWith\<close>. \<^verbatim>\<open>caches.open\<close> and
  \<^verbatim>\<open>cache.match\<close> are awaited outside the \<^verbatim>\<open>try\<close>, so a failing open rejects the promise;
  the fetch and the put are awaited inside it.
\<close>

definition unavailable :: response where
  "unavailable = \<lparr>status = 503, statusText = ''Service Unavailable'', rtype = Default,
     body = ''Network request failed and no cache available''\<rparr>"

definition respond_ts :: "env \<Rightarrow> cache_storage \<Rightarrow> request \<Rightarrow> handled" where
  "respond_ts e cs req =
     (if \<not> open_ok e then (Rejected StoreError, cs, [])
      else
        let cs1 = caches_open cs CACHE_NAME in
        case cache_match cs1 CACHE_NAME req of
          Some cached \<Rightarrow> (Responded cached, cs1, [Revalidate req])
        | None \<Rightarrow>
            (case fetch e req of
               Inr networkResponse \<Rightarrow>
                 if ok networkResponse \<and> rtype networkResponse = Basic
                 then (Responded networkResponse, try_put e cs1 req networkResponse, [])
                 else (Responded networkResponse, cs1, [])
             | Inl err \<Rightarrow> (Responded unavailable, cs1, [])))"

definition fetch_ts :: "env \<Rightarrow> cache_storage \<Rightarrow> request \<Rightarrow> handled" where
  "fetch_ts e cs req =
     (if method req \<noteq> ''GET'' then (PassThrough, cs, [])
      else if url_protocol req \<noteq> ''http:'' \<and> url_protocol req \<noteq> ''https:'' then (PassThrough, cs, [])
      else if url_origin req \<noteq> location_origin e then (PassThrough, cs, [])
      else respond_ts e cs req)"

text \<open>
  The revalidation started on a hit: \<^verbatim>\<open>fetch(req).then(...)\<close> with both rejections
  swallowed. It writes through the cache object the handler had opened.
\<close>

definition revalidate_ts :: "env \<Rightarrow> cache_storage \<Rightarrow> request \<Rightarrow> cache_storage" where
  "revalidate_ts e cs req =
     (case fetch e req of
        Inr networkResponse \<Rightarrow>
          if ok networkResponse \<and> rtype networkResponse = Basic
          then try_put e cs req networkResponse
          else cs
      | Inl err \<Rightarrow> cs)"

text \<open>
  Running one unit of pending work. service-worker.ts never leaves a write pending; the
  second equation is there for totality.
\<close>

fun run_task_ts :: "env \<Rightarrow> task \<Rightarrow> cache_storage \<Rightarrow> cache_storage" where
  "run_task_ts e (Revalidate req) cs = revalidate_ts e cs req"
| "run_task_ts e (StorePut req resp) cs = try_put e cs req resp"

subsection \<open>service-worker.js\<close>

text \<open>
  How work that nobody awaits ends: all of it done, or a rejection received by a catch
  handler of the worker, or a rejection that no handler receives (it surfaces as an
  unhandled rejection in the worker's global scope).
\<close>

datatype fate = Fulfilled | Caught error | Unhandled error

text \<open>
  Both writes of the JavaScript worker call \<^verbatim>\<open>cache.put\<close> inside a \<^verbatim>\<open>.then\<close> callback
  with a block body, \<^verbatim>\<open>(cache) => { cache.put(...); }\<close>: the promise of the put is not
  returned, so no catch of the surrounding chain receives its rejection.
\<close>

definition put_dropped :: "env \<Rightarrow> cache_storage \<Rightarrow> request \<Rightarrow> response \<Rightarrow> cache_storage \<times> fate" where
  "put_dropped e cs req resp =
     (try_put e cs req resp, if put_ok e req resp then Fulfilled else Unhandled StoreError)"

text \<open>
  The write started on a miss and not awaited:
  \<^verbatim>\<open>caches.open(CACHE_NAME).then((cache) => { cache.put(...); }).catch(...)\<close>. The catch,
  which warns \<^verbatim>\<open>'Failed to cache response:'\<close>, receives a failing open only.
\<close>

definition store_js :: "env \<Rightarrow> cache_storage \<Rightarrow> request \<Rightarrow> response \<Rightarrow> cache_storage \<times> fate" where
  "store_js e cs req resp =
     (if \<not> open_ok e then (cs, Caught StoreError)
      else put_dropped e (caches_open cs CACHE_NAME) req resp)"

text \<open>
  The write of the revalidation: \<^verbatim>\<open>caches.open(CACHE_NAME).then((cache) => { cache.put(...); })\<close>
  with no catch of its own, started inside the callback of the fetch and not returned
  from it, so the catch after the fetch receives neither a failing open nor a failing put.
\<close>

definition refresh_js :: "env \<Rightarrow> cache_storage \<Rightarrow> request \<Rightarrow> response \<Rightarrow> cache_storage \<times> fate" where
  "refresh_js e cs req resp =
     (if \<not> open_ok e then (cs, Unhandled StoreError)
      else put_dropped e (caches_open cs CACHE_NAME) req resp)"

text \<open>
  The promise given to \<^verbatim>\<open>respondWith\<close>: \<^verbatim>\<open>caches.match\<close> over all caches; on a hit the
  revalidation is started and the stored response returned; on a miss the fetch is
  awaited, a response that is not status 200 and basic is returned as it is, any other
  one is returned while its write is started, and a rejected fetch is logged and thrown
  again.
\<close>

definition respond_js :: "env \<Rightarrow> cache_storage \<Rightarrow> request \<Rightarrow> handled" where
  "respond_js e cs req =
     (case caches_match cs req of
        Some response \<Rightarrow> (Responded response, cs, [Revalidate req])
      | None \<Rightarrow>
          (case fetch e req of
             Inr response \<Rightarrow>
               if status response \<noteq> 200 \<or> rtype response \<noteq> Basic
               then (Responded response, cs, [])
               else (Responded response, cs, [StorePut req response])
           | Inl err \<Rightarrow> (Rejected err, cs, [])))"

definition fetch_js :: "env \<Rightarrow> cache_storage \<Rightarrow> request \<Rightarrow> handled" where
  "fetch_js e cs req =
     (if method req \<noteq> ''GET'' then (PassThrough, cs, []) else respond_js e cs req)"

text \<open>
  The revalidation started on a hit: the only test is \<^verbatim>\<open>status === 200\<close>; a rejected
  fetch is received by the empty catch.
\<close>

definition revalidate_js :: "env \<Rightarrow> cache_storage \<Rightarrow> request \<Rightarrow> cache_storage \<times> fate" where
  "revalidate_js e cs req =
     (case fetch e req of
        Inr networkResponse \<Rightarrow>
          if status networkResponse = 200 then refresh_js e cs req networkResponse
          else (cs, Fulfilled)
      | Inl err \<Rightarrow> (cs, Caught err))"

fun run_task_js :: "env \<Rightarrow> task \<Rightarrow> cache_storage \<Rightarrow> cache_storage \<times> fate" where
  "run_task_js e (Revalidate req) cs = revalidate_js e cs req"
| "run_task_js e (StorePut req resp) cs = store_js e cs req resp"

subsection \<open>Installation and activation\<close>

text \<open>
  The host's \<^verbatim>\<open>cache.addAll(urls)\<close>: every URL is requested with GET, relative to the
  worker's location; the promise rejects, and nothing is stored, unless every fetch
  yields an \<^verbatim>\<open>ok\<close> response and every entry can be written. \<^verbatim>\<open>cache.add(url)\<close> is
  \<^verbatim>\<open>addAll\<close> of the one URL.
\<close>

definition preload_request :: "env \<Rightarrow> string \<Rightarrow> request" where
  "preload_request e u =
     \<lparr>method = ''GET'', url_protocol = location_protocol e, url_origin = location_origin e,
      url_path = u\<rparr>"

fun fetch_all :: "env \<Rightarrow> string list \<Rightarrow> (request \<times> response) list option" where
  "fetch_all e [] = Some []"
| "fetch_all e (u # us) =
     (case fetch e (preload_request e u) of
        Inl err \<Rightarrow> None
      | Inr r \<Rightarrow>
          if ok r
          then (case fetch_all e us of
                  None \<Rightarrow> None
                | Some es \<Rightarrow> Some ((preload_request e u, r) # es))
          else None)"

definition cache_addAll :: "env \<Rightarrow> cache_storage \<Rightarrow> string \<Rightarrow> string list \<Rightarrow> error + cache_storage" where
  "cache_addAll e cs name urls =
     (case fetch_all e urls of
        None \<Rightarrow> Inl NetworkError
      | Some es \<Rightarrow>
          if list_all (\<lambda>kv. put_ok e (fst kv) (snd kv)) es
          then Inr (fold (\<lambda>kv s. cache_put s name (fst kv) (snd kv)) es cs)
          else Inl StoreError)"

definition cache_add :: "env \<Rightarrow> cache_storage \<Rightarrow> string \<Rightarrow> string \<Rightarrow> error + cache_storage" where
  "cache_add e cs name url = cache_addAll e cs name [url]"

text \<open>
  What becomes of the worker after the promise given to \<^verbatim>\<open>event.waitUntil\<close> in the install
  listener settles: installed when it resolves, redundant when it rejects.
\<close>

datatype lifecycle = Installed | Redundant

definition urlsToCache_ts :: "string list" where
  "urlsToCache_ts = [''/api/network/map'', ''/api/scans'']"

text \<open>
  service-worker.ts: \<^verbatim>\<open>caches.open(CACHE_NAME).then((cache) => cache.addAll(urlsToCache))\<close>
  followed by \<^verbatim>\<open>.catch(() => void 0)\<close>, which resolves the promise after any rejection.
\<close>

definition install_ts :: "env \<Rightarrow> cache_storage \<Rightarrow> lifecycle \<times> cache_storage" where
  "install_ts e cs =
     (if \<not> open_ok e then (Installed, cs)
      else
        let cs1 = caches_open cs CACHE_NAME in
        case cache_addAll e cs1 CACHE_NAME urlsToCache_ts of
          Inr cs2 \<Rightarrow> (Installed, cs2)
        | Inl err \<Rightarrow> (Installed, cs1))"

definition urlsToCache_js :: "string list" where
  "urlsToCache_js = [''/'', ''/manifest.json'']"

text \<open>
  service-worker.js: each URL is added on its own, \<^verbatim>\<open>cache.add(url).catch(...)\<close> returning
  null after a failure; the outer catch resolves the promise when the open fails.
\<close>

definition add_js :: "env \<Rightarrow> string \<Rightarrow> cache_storage \<Rightarrow> cache_storage" where
  "add_js e url cs = (case cache_add e cs CACHE_NAME url of Inr cs' \<Rightarrow> cs' | Inl err \<Rightarrow> cs)"

definition install_js :: "env \<Rightarrow> cache_storage \<Rightarrow> lifecycle \<times> cache_storage" where
  "install_js e cs =
     (if \<not> open_ok e then (Installed, cs)
      else (Installed, fold (add_js e) urlsToCache_js (caches_open cs CACHE_NAME)))"


subsection \<open>The specification's Scope Filter\<close>

text \<open>
  The predicate as the specification words it: the method is the retrieval method, the
  scheme is http or https, and the origin is the worker's own.
\<close>

definition isEligible :: "env \<Rightarrow> request \<Rightarrow> bool" where
  "isEligible e req =
     (method req = ''GET'' \<and> (url_protocol req = ''http:'' \<or> url_protocol req = ''https:'') \<and>
      url_origin req = location_origin e)"

text \<open>The storage once the work a handler left pending has run, under environment \<open>e\<close>.\<close>

definition settle_ts :: "env \<Rightarrow> handled \<Rightarrow> cache_storage" where
  "settle_ts e h = fold (run_task_ts e) (snd (snd h)) (fst (snd h))"

definition settle_js :: "env \<Rightarrow> handled \<Rightarrow> cache_storage" where
  "settle_js e h = fold (\<lambda>t s. fst (run_task_js e t s)) (snd (snd h)) (fst (snd h))"

text \<open>Every entry of every cache is keyed by a GET request.\<close>

definition all_get :: "cache_storage \<Rightarrow> bool" where
  "all_get cs = list_all (\<lambda>nc. list_all (\<lambda>kv. method (fst kv) = ''GET'') (snd nc)) cs"

subsection \<open>Concrete scenarios\<close>

definition req_scans :: request where
  "req_scans = \<lparr>method = ''GET'', url_protocol = ''https:'',
     url_origin = ''https://nexasec.example'', url_path = ''/api/scans''\<rparr>"

definition req_post :: request where
  "req_post = \<lparr>method = ''POST'', url_protocol = ''https:'',
     url_origin = ''https://nexasec.example'', url_path = ''/api/scans''\<rparr>"

definition req_foreign :: request where
  "req_foreign = \<lparr>method = ''GET'', url_protocol = ''https:'',
     url_origin = ''https://cdn.example'', url_path = ''/lib.js''\<rparr>"

definition resp_basic :: response where
  "resp_basic = \<lparr>status = 200, statusText = ''OK'', rtype = Basic, body = ''[1]''\<rparr>"

definition resp_old :: response where
  "resp_old = \<lparr>status = 200, statusText = ''OK'', rtype = Basic, body = ''[]''\<rparr>"

definition resp_404 :: response where
  "resp_404 = \<lparr>status = 404, statusText = ''Not Found'', rtype = Basic, body = []\<rparr>"

definition resp_cors :: response where
  "resp_cors = \<lparr>status = 200, statusText = ''OK'', rtype = Cors, body = ''x''\<rparr>"

text \<open>The network answers every request with \<open>r\<close>; the store works.\<close>

definition env_up :: "response \<Rightarrow> env" where
  "env_up r = \<lparr>fetch = (\<lambda>req. Inr r), open_ok = True, put_ok = (\<lambda>req resp. True),
     location_protocol = ''https:'', location_origin = ''https://nexasec.example''\<rparr>"

text \<open>The network answers every request with \<open>r\<close>; the cache opens and every put is rejected.\<close>

definition env_quota :: "response \<Rightarrow> env" where
  "env_quota r = \<lparr>fetch = (\<lambda>req. Inr r), open_ok = True, put_ok = (\<lambda>req resp. False),
     location_protocol = ''https:'', location_origin = ''https://nexasec.example''\<rparr>"

text \<open>The network is down; the store works.\<close>

definition env_down :: env where
  "env_down = \<lparr>fetch = (\<lambda>req. Inl NetworkError), open_ok = True, put_ok = (\<lambda>req resp. True),
     location_protocol = ''https:'', location_origin = ''https://nexasec.example''\<rparr>"

text \<open>The network answers only the path \<open>p\<close>, with \<open>r\<close>; the store works.\<close>

definition env_only :: "string \<Rightarrow> response \<Rightarrow> env" where
  "env_only p r = \<lparr>fetch = (\<lambda>req. if url_path req = p then Inr r else Inl NetworkError),
     open_ok = True, put_ok = (\<lambda>req resp. True),
     location_protocol = ''https:'', location_origin = ''https://nexasec.example''\<rparr>"

text \<open>A storage whose current cache holds \<open>resp_old\<close> for \<open>req_scans\<close>.\<close>

definition store_hit :: cache_storage where
  "store_hit = [(CACHE_NAME, [(req_scans, resp_old)])]"

section \<open>Facts about the storage\<close>

lemma keys_open: "name \<in> set (caches_keys (caches_open cs name))"
  by (simp add: caches_open_def caches_keys_def)

lemma open_present: "name \<in> set (caches_keys cs) \<Longrightarrow> caches_open cs name = cs"
  by (simp add: caches_open_def)

lemma cache_match_present: "cache_match cs name req = Some r \<Longrightarrow> name \<in> set (caches_keys cs)"
  by (auto simp: cache_match_def caches_keys_def split: option.splits dest: map_of_SomeD intro: rev_image_eqI)

lemma cache_match_open: "cache_match (caches_open cs name) name' req = cache_match cs name' req"
proof (cases "name \<in> set (caches_keys cs)")
  case True
  then show ?thesis by (simp add: open_present)
next
  case False
  then have "map_of cs name = None"
    by (simp add: caches_keys_def map_of_eq_None_iff)
  then show ?thesis
    using False by (simp add: caches_open_def cache_match_def map_add_def split: option.splits)
qed

lemma map_of_remove: "map_of (filter (\<lambda>e. fst e \<noteq> req) c) k = (if k = req then None else map_of c k)"
  by (induction c) auto

lemma map_of_put_entry: "map_of (put_entry c req resp) k = (if k = req then Some resp else map_of c k)"
  by (simp add: put_entry_def map_add_def map_of_remove split: option.splits)

lemma keys_put: "caches_keys (cache_put cs name req resp) = caches_keys cs"
  by (induction cs) (auto simp: cache_put_def caches_keys_def)

lemma cache_match_put:
  "cache_match (cache_put cs name req resp) name' k =
     (if name' = name \<and> k = req \<and> name \<in> set (caches_keys cs) then Some resp
      else cache_match cs name' k)"
proof (induction cs)
  case Nil
  show ?case by (simp add: cache_put_def cache_match_def caches_keys_def)
next
  case (Cons nc cs)
  then show ?case
    by (cases nc) (auto simp: cache_put_def cache_match_def caches_keys_def map_of_put_entry
        split: option.splits if_splits)
qed

lemma cache_match_try_put:
  "cache_match (try_put e cs req resp) name k =
     (if put_ok e req resp \<and> name = CACHE_NAME \<and> k = req \<and> CACHE_NAME \<in> set (caches_keys cs)
      then Some resp else cache_match cs name k)"
  by (simp add: try_put_def cache_match_put)

lemma written_try_put:
  "cache_match (try_put e cs req resp) name k = Some v \<Longrightarrow> cache_match cs name k \<noteq> Some v \<Longrightarrow>
     v = resp \<and> k = req"
  by (simp add: cache_match_try_put split: if_splits)

lemma caches_match_append_empty: "caches_match (cs @ [(name, [])]) k = caches_match cs k"
  by (induction cs) (simp_all split: option.splits)

lemma caches_match_open: "caches_match (caches_open cs name) k = caches_match cs k"
  by (simp add: caches_open_def caches_match_append_empty)

lemma caches_match_put_other:
  "k \<noteq> req \<Longrightarrow> caches_match (cache_put cs name req resp) k = caches_match cs k"
  by (induction cs) (simp_all add: cache_put_def map_of_put_entry split: option.splits)

lemma caches_match_put_same:
  "caches_match cs req = Some r \<Longrightarrow>
     caches_match (cache_put cs name req resp) req = Some r \<or>
     caches_match (cache_put cs name req resp) req = Some resp"
proof (induction cs)
  case Nil
  then show ?case by simp
next
  case (Cons nc cs)
  show ?case
  proof (cases "map_of (snd nc) req")
    case None
    with Cons show ?thesis
      by (auto simp: cache_put_def map_of_put_entry)
  next
    case (Some x)
    with Cons.prems show ?thesis
      by (auto simp: cache_put_def map_of_put_entry)
  qed
qed

lemma caches_match_put_only:
  "caches_keys cs = [name] \<Longrightarrow> caches_match (cache_put cs name req resp) req = Some resp"
  by (cases cs) (auto simp: caches_keys_def cache_put_def map_of_put_entry)


text \<open>Writes keep the keys GET when the written key is GET.\<close>

lemma all_get_open: "all_get cs \<Longrightarrow> all_get (caches_open cs name)"
  by (simp add: all_get_def caches_open_def)

lemma get_keys_put_entry:
  "list_all (\<lambda>kv. method (fst kv) = ''GET'') c \<Longrightarrow> method req = ''GET'' \<Longrightarrow>
     list_all (\<lambda>kv. method (fst kv) = ''GET'') (put_entry c req resp)"
  by (simp add: put_entry_def list_all_iff)

lemma all_get_put: "all_get cs \<Longrightarrow> method req = ''GET'' \<Longrightarrow> all_get (cache_put cs name req resp)"
  by (induction cs) (simp_all add: all_get_def cache_put_def get_keys_put_entry)

lemma all_get_try_put: "all_get cs \<Longrightarrow> method req = ''GET'' \<Longrightarrow> all_get (try_put e cs req resp)"
  by (simp add: try_put_def all_get_put)

lemma all_get_store_js: "all_get cs \<Longrightarrow> method req = ''GET'' \<Longrightarrow> all_get (fst (store_js e cs req resp))"
  by (simp add: store_js_def put_dropped_def all_get_try_put all_get_open)

lemma all_get_refresh_js: "all_get cs \<Longrightarrow> method req = ''GET'' \<Longrightarrow> all_get (fst (refresh_js e cs req resp))"
  by (simp add: refresh_js_def put_dropped_def all_get_try_put all_get_open)

lemma all_get_revalidate_ts: "all_get cs \<Longrightarrow> method req = ''GET'' \<Longrightarrow> all_get (revalidate_ts e cs req)"
  by (simp add: revalidate_ts_def all_get_try_put split: sum.splits)

lemma all_get_revalidate_js: "all_get cs \<Longrightarrow> method req = ''GET'' \<Longrightarrow> all_get (fst (revalidate_js e cs req))"
  by (simp add: revalidate_js_def all_get_refresh_js split: sum.splits)





section \<open>Facts about the handlers\<close>

lemma fetch_ts_eligible: "isEligible e req \<Longrightarrow> fetch_ts e cs req = respond_ts e cs req"
  by (auto simp: fetch_ts_def isEligible_def)

lemma fetch_ts_not_eligible: "\<not> isEligible e req \<Longrightarrow> fetch_ts e cs req = (PassThrough, cs, [])"
  by (auto simp: fetch_ts_def isEligible_def)

lemma respond_ts_taken: "fst (respond_ts e cs req) \<noteq> PassThrough"
  by (simp add: respond_ts_def Let_def split: option.splits sum.splits)

lemma respond_js_taken: "fst (respond_js e cs req) \<noteq> PassThrough"
  by (simp add: respond_js_def split: option.splits sum.splits)

lemma respond_ts_hit:
  "open_ok e \<Longrightarrow> cache_match cs CACHE_NAME req = Some cached \<Longrightarrow>
     respond_ts e cs req = (Responded cached, cs, [Revalidate req])"
  by (frule cache_match_present) (simp add: respond_ts_def cache_match_open open_present)

lemma respond_ts_miss:
  "open_ok e \<Longrightarrow> cache_match cs CACHE_NAME req = None \<Longrightarrow>
     respond_ts e cs req =
       (case fetch e req of
          Inr networkResponse \<Rightarrow>
            if ok networkResponse \<and> rtype networkResponse = Basic
            then (Responded networkResponse,
                  try_put e (caches_open cs CACHE_NAME) req networkResponse, [])
            else (Responded networkResponse, caches_open cs CACHE_NAME, [])
        | Inl err \<Rightarrow> (Responded unavailable, caches_open cs CACHE_NAME, []))"
  by (simp add: respond_ts_def cache_match_open Let_def)

lemma respond_js_hit:
  "caches_match cs req = Some cached \<Longrightarrow>
     respond_js e cs req = (Responded cached, cs, [Revalidate req])"
  by (simp add: respond_js_def)

lemma revalidate_ts_overwrites:
  "fetch e req = Inr networkResponse \<Longrightarrow> ok networkResponse \<Longrightarrow> rtype networkResponse = Basic \<Longrightarrow>
   put_ok e req networkResponse \<Longrightarrow> CACHE_NAME \<in> set (caches_keys cs) \<Longrightarrow>
     cache_match (revalidate_ts e cs req) CACHE_NAME req = Some networkResponse"
  by (simp add: revalidate_ts_def cache_match_try_put)

text \<open>What a revalidation does to the storage, and what it leaves alone.\<close>

lemma revalidate_ts_unchanged:
  "fetch e req = Inl err \<or>
     (fetch e req = Inr networkResponse \<and>
      (\<not> ok networkResponse \<or> rtype networkResponse \<noteq> Basic \<or> \<not> put_ok e req networkResponse)) \<Longrightarrow>
     revalidate_ts e cs req = cs"
  by (auto simp: revalidate_ts_def try_put_def)

lemma revalidate_ts_other_keys:
  "k \<noteq> req \<Longrightarrow> cache_match (revalidate_ts e cs req) name k = cache_match cs name k"
  by (simp add: revalidate_ts_def cache_match_try_put split: sum.splits)

lemma revalidate_js_storage:
  "fst (revalidate_js e cs req) =
     (case fetch e req of
        Inr networkResponse \<Rightarrow>
          if status networkResponse = 200 \<and> open_ok e \<and> put_ok e req networkResponse
          then cache_put (caches_open cs CACHE_NAME) CACHE_NAME req networkResponse
          else if status networkResponse = 200 \<and> open_ok e then caches_open cs CACHE_NAME
          else cs
      | Inl err \<Rightarrow> cs)"
  by (simp add: revalidate_js_def refresh_js_def put_dropped_def try_put_def split: sum.splits)

lemma revalidate_js_unchanged:
  "fetch e req = Inl err \<or>
     (fetch e req = Inr networkResponse \<and>
      (status networkResponse \<noteq> 200 \<or> \<not> open_ok e \<or> \<not> put_ok e req networkResponse)) \<Longrightarrow>
     caches_match (fst (revalidate_js e cs req)) k = caches_match cs k"
  by (auto simp: revalidate_js_storage caches_match_open)

lemma revalidate_js_other_keys:
  "k \<noteq> req \<Longrightarrow> caches_match (fst (revalidate_js e cs req)) k = caches_match cs k"
  by (simp add: revalidate_js_storage caches_match_put_other caches_match_open split: sum.splits)

lemma revalidate_js_written:
  "fetch e req = Inr networkResponse \<Longrightarrow> status networkResponse = 200 \<Longrightarrow> open_ok e \<Longrightarrow>
   put_ok e req networkResponse \<Longrightarrow> caches_match cs req = Some r \<Longrightarrow>
     (caches_match (fst (revalidate_js e cs req)) req = Some r \<or>
      caches_match (fst (revalidate_js e cs req)) req = Some networkResponse) \<and>
     (caches_keys cs = [CACHE_NAME] \<longrightarrow>
      caches_match (fst (revalidate_js e cs req)) req = Some networkResponse)"
proof -
  assume a: "fetch e req = Inr networkResponse" "status networkResponse = 200" "open_ok e"
    "put_ok e req networkResponse" and hit: "caches_match cs req = Some r"
  have s: "fst (revalidate_js e cs req) =
      cache_put (caches_open cs CACHE_NAME) CACHE_NAME req networkResponse"
    using a by (simp add: revalidate_js_storage)
  have "caches_match (caches_open cs CACHE_NAME) req = Some r"
    using hit by (simp add: caches_match_open)
  then have one: "caches_match (fst (revalidate_js e cs req)) req = Some r \<or>
      caches_match (fst (revalidate_js e cs req)) req = Some networkResponse"
    unfolding s by (rule caches_match_put_same)
  have two: "caches_match (fst (revalidate_js e cs req)) req = Some networkResponse"
    if "caches_keys cs = [CACHE_NAME]"
  proof -
    have "caches_open cs CACHE_NAME = cs"
      using that by (simp add: open_present)
    with that show ?thesis
      unfolding s by (simp add: caches_match_put_only)
  qed
  show ?thesis using one two by blast
qed

lemma settle_ts_hit:
  "isEligible e req \<Longrightarrow> open_ok e \<Longrightarrow> cache_match cs CACHE_NAME req = Some r \<Longrightarrow>
     settle_ts e1 (fetch_ts e cs req) = revalidate_ts e1 cs req"
  by (simp add: fetch_ts_eligible respond_ts_hit settle_ts_def)

lemma settle_js_hit:
  "method req = ''GET'' \<Longrightarrow> caches_match cs req = Some r \<Longrightarrow>
     settle_js e1 (fetch_js e cs req) = fst (revalidate_js e1 cs req)"
  by (simp add: fetch_js_def respond_js_hit settle_js_def)

lemma fetch_ts_answer:
  "isEligible e req \<Longrightarrow> open_ok e \<Longrightarrow> cache_match cs CACHE_NAME req = Some r \<Longrightarrow>
     fst (fetch_ts e cs req) = Responded r"
  by (simp add: fetch_ts_eligible respond_ts_hit)

lemma fetch_js_answer:
  "method req = ''GET'' \<Longrightarrow> caches_match cs req = Some r \<Longrightarrow> fst (fetch_js e cs req) = Responded r"
  by (simp add: fetch_js_def respond_js_hit)

text \<open>
  On a miss with a cacheable response the answer is the fetched response, whatever
  \<^verbatim>\<open>cache.put\<close> does (\<open>p\<close> is any behaviour of it); and how the write of service-worker.js
  ends.
\<close>

lemma miss_answer_whatever_put:
  "(isEligible e req \<and> open_ok e \<and> cache_match cs CACHE_NAME req = None \<and>
      fetch e req = Inr networkResponse \<and> ok networkResponse \<and> rtype networkResponse = Basic \<longrightarrow>
      fst (fetch_ts (e\<lparr>put_ok := p\<rparr>) cs req) = Responded networkResponse \<and>
      fetch_ts (e\<lparr>put_ok := \<lambda>k v. False\<rparr>) cs req =
        (Responded networkResponse, caches_open cs CACHE_NAME, [])) \<and>
   (method req = ''GET'' \<and> caches_match cs req = None \<and>
      fetch e req = Inr networkResponse \<and> status networkResponse = 200 \<and>
      rtype networkResponse = Basic \<longrightarrow>
      fetch_js (e\<lparr>put_ok := p\<rparr>) cs req =
        (Responded networkResponse, cs, [StorePut req networkResponse]))"
proof -
  have "isEligible (e\<lparr>put_ok := q\<rparr>) req = isEligible e req" for q
    by (simp add: isEligible_def)
  then show ?thesis
    by (simp add: fetch_ts_eligible respond_ts_miss fetch_js_def respond_js_def try_put_def)
qed

lemma store_js_fate:
  "snd (store_js e cs req resp) =
     (if \<not> open_ok e then Caught StoreError
      else if put_ok e req resp then Fulfilled else Unhandled StoreError)"
  by (simp add: store_js_def put_dropped_def)

lemma all_get_respond_ts:
  "all_get cs \<Longrightarrow> method req = ''GET'' \<Longrightarrow> all_get (fst (snd (respond_ts e cs req)))"
  by (simp add: respond_ts_def Let_def all_get_open all_get_try_put split: option.splits sum.splits)

lemma all_get_settle_ts:
  "all_get cs \<Longrightarrow> method req = ''GET'' \<Longrightarrow> all_get (settle_ts e' (respond_ts e cs req))"
  by (simp add: respond_ts_def Let_def settle_ts_def all_get_open all_get_try_put
      all_get_revalidate_ts split: option.splits sum.splits)

lemma all_get_respond_js:
  "all_get cs \<Longrightarrow> method req = ''GET'' \<Longrightarrow> all_get (fst (snd (respond_js e cs req)))"
  by (simp add: respond_js_def split: option.splits sum.splits)

lemma all_get_settle_js:
  "all_get cs \<Longrightarrow> method req = ''GET'' \<Longrightarrow> all_get (settle_js e' (respond_js e cs req))"
  by (simp add: respond_js_def settle_js_def all_get_store_js all_get_revalidate_js
      split: option.splits sum.splits)

text \<open>service-worker.ts writes nothing but cacheable responses.\<close>

lemma revalidate_ts_writes_cacheable:
  "cache_match (revalidate_ts e cs req) name k = Some v \<Longrightarrow> cache_match cs name k \<noteq> Some v \<Longrightarrow>
     ok v \<and> rtype v = Basic"
  by (auto simp: revalidate_ts_def split: sum.splits if_splits dest: written_try_put)

lemma respond_ts_writes_cacheable:
  "cache_match (fst (snd (respond_ts e cs req))) name k = Some v \<Longrightarrow>
   cache_match cs name k \<noteq> Some v \<Longrightarrow> ok v \<and> rtype v = Basic"
  by (auto simp: respond_ts_def Let_def cache_match_open
      split: sum.splits if_splits option.splits dest: written_try_put)

lemma fetch_ts_writes_cacheable:
  "cache_match (settle_ts e' (fetch_ts e cs req)) name k = Some v \<Longrightarrow>
   cache_match cs name k \<noteq> Some v \<Longrightarrow> ok v \<and> rtype v = Basic"
proof (cases "isEligible e req")
  case False
  assume "cache_match (settle_ts e' (fetch_ts e cs req)) name k = Some v"
    "cache_match cs name k \<noteq> Some v"
  with False show ?thesis
    by (simp add: fetch_ts_not_eligible settle_ts_def)
next
  case True
  assume a: "cache_match (settle_ts e' (fetch_ts e cs req)) name k = Some v"
    and b: "cache_match cs name k \<noteq> Some v"
  obtain out s ts where r: "respond_ts e cs req = (out, s, ts)"
    by (cases "respond_ts e cs req") auto
  have ts: "ts = [] \<or> ts = [Revalidate req]"
    using r by (auto simp: respond_ts_def Let_def split: if_splits option.splits sum.splits)
  have s: "cache_match s name k = Some v \<Longrightarrow> ok v \<and> rtype v = Basic"
    using respond_ts_writes_cacheable [of e cs req name k v] r b by simp
  show ?thesis
  proof (cases "cache_match s name k = Some v")
    case True
    then show ?thesis by (rule s)
  next
    case False
    with a r True ts show ?thesis
      by (auto simp: fetch_ts_eligible settle_ts_def dest: revalidate_ts_writes_cacheable)
  qed
qed

section \<open>Facts about installation\<close>

lemma add_js_unfold:
  "add_js e u cs =
     (case fetch e (preload_request e u) of
        Inr r \<Rightarrow>
          if ok r \<and> put_ok e (preload_request e u) r
          then cache_put cs CACHE_NAME (preload_request e u) r
          else cs
      | Inl err \<Rightarrow> cs)"
  by (simp add: add_js_def cache_add_def cache_addAll_def split: sum.splits option.splits)

lemma keys_add_js: "caches_keys (add_js e u cs) = caches_keys cs"
  by (simp add: add_js_unfold keys_put split: sum.splits)


lemma preload_request_inj: "preload_request e u = preload_request e v \<longleftrightarrow> u = v"
  by (simp add: preload_request_def)

lemma cache_match_add_js:
  "CACHE_NAME \<in> set (caches_keys cs) \<Longrightarrow>
     cache_match (add_js e u cs) CACHE_NAME k =
       (case fetch e (preload_request e u) of
          Inr r \<Rightarrow>
            if k = preload_request e u \<and> ok r \<and> put_ok e (preload_request e u) r then Some r
            else cache_match cs CACHE_NAME k
        | Inl err \<Rightarrow> cache_match cs CACHE_NAME k)"
  by (simp add: add_js_unfold cache_match_put split: sum.splits)

lemma preload_js_stored:
  "CACHE_NAME \<in> set (caches_keys cs) \<Longrightarrow> u \<in> set urls \<Longrightarrow>
   fetch e (preload_request e u) = Inr r \<Longrightarrow> ok r \<Longrightarrow> put_ok e (preload_request e u) r \<Longrightarrow>
     cache_match (fold (add_js e) urls cs) CACHE_NAME (preload_request e u) = Some r"
proof (induction urls arbitrary: cs)
  case Nil
  then show ?case by simp
next
  case (Cons v urls)
  have present: "CACHE_NAME \<in> set (caches_keys (add_js e v cs))"
    using Cons.prems(1) by (simp add: keys_add_js)
  show ?case
  proof (cases "u \<in> set urls")
    case True
    with Cons present show ?thesis by simp
  next
    case False
    with Cons.prems have "v = u" by simp
    have "cache_match (add_js e u cs) CACHE_NAME (preload_request e u) = Some r"
      using Cons.prems by (simp add: cache_match_add_js)
    moreover have "cache_match (fold (add_js e) urls s) CACHE_NAME (preload_request e u) =
        cache_match s CACHE_NAME (preload_request e u)"
      if "CACHE_NAME \<in> set (caches_keys s)" for s
      using that False
    proof (induction urls arbitrary: s)
      case Nil
      then show ?case by simp
    next
      case (Cons w urls)
      then show ?case
        by (simp add: keys_add_js cache_match_add_js preload_request_inj split: sum.splits)
    qed
    ultimately show ?thesis
      using present \<open>v = u\<close> by simp
  qed
qed

lemma preload_js_skipped:
  "CACHE_NAME \<in> set (caches_keys cs) \<Longrightarrow>
   fetch e (preload_request e u) = Inl err \<or>
     (fetch e (preload_request e u) = Inr r \<and> (\<not> ok r \<or> \<not> put_ok e (preload_request e u) r)) \<Longrightarrow>
     cache_match (fold (add_js e) urls cs) CACHE_NAME (preload_request e u) =
       cache_match cs CACHE_NAME (preload_request e u)"
proof (induction urls arbitrary: cs)
  case Nil
  then show ?case by simp
next
  case (Cons v urls)
  have "cache_match (add_js e v cs) CACHE_NAME (preload_request e u) =
      cache_match cs CACHE_NAME (preload_request e u)"
    using Cons.prems by (auto simp: cache_match_add_js preload_request_inj split: sum.splits)
  then show ?case
    using Cons by (simp add: keys_add_js)
qed

lemma fetch_all_fails:
  "u \<in> set urls \<Longrightarrow>
   fetch e (preload_request e u) = Inl err \<or> (fetch e (preload_request e u) = Inr r \<and> \<not> ok r) \<Longrightarrow>
     fetch_all e urls = None"
  by (induction urls) (auto split: sum.splits option.splits)

lemma install_ts_all_or_nothing:
  "open_ok e \<Longrightarrow> u \<in> set urlsToCache_ts \<Longrightarrow>
   fetch e (preload_request e u) = Inl err \<or> (fetch e (preload_request e u) = Inr r \<and> \<not> ok r) \<Longrightarrow>
     install_ts e cs = (Installed, caches_open cs CACHE_NAME)"
  by (simp add: install_ts_def Let_def cache_addAll_def fetch_all_fails)

lemma install_always_completes: "fst (install_ts e cs) = Installed \<and> fst (install_js e cs) = Installed"
  by (simp add: install_ts_def install_js_def Let_def split: sum.splits)

section \<open>The claims\<close>

subsection \<open>C1: the Scope Filter\<close>

text \<open>
  C1 as the specification states it fails on service-worker.js, whose listener tests the
  method only: a GET request to a foreign origin, which the Scope Filter rejects, is
  answered by the policy engine.
\<close>

theorem C1_js_handles_foreign_origin:
  "\<not> isEligible (env_up resp_cors) req_foreign \<and>
   fetch_js (env_up resp_cors) [] req_foreign = (Responded resp_cors, [], [])"
  by (simp add: isEligible_def req_foreign_def env_up_def fetch_js_def respond_js_def
      resp_cors_def)

text \<open>
  C1, amended. In service-worker.ts the policy engine (\<open>respond_ts\<close>) runs exactly for the
  requests that satisfy all three Scope Filter rules, and every other request is passed
  through with the storage untouched and no work started. In service-worker.js the only
  rule is the method: the policy engine (\<open>respond_js\<close>) runs exactly for the GET requests,
  of any origin and scheme, and every other request is passed through with the storage
  untouched and no work started.
\<close>

theorem C1_scope_filter:
  "(isEligible e req \<longrightarrow>
      fetch_ts e cs req = respond_ts e cs req \<and> fst (fetch_ts e cs req) \<noteq> PassThrough) \<and>
   (\<not> isEligible e req \<longrightarrow> fetch_ts e cs req = (PassThrough, cs, [])) \<and>
   (method req = ''GET'' \<longrightarrow>
      fetch_js e cs req = respond_js e cs req \<and> fst (fetch_js e cs req) \<noteq> PassThrough) \<and>
   (method req \<noteq> ''GET'' \<longrightarrow> fetch_js e cs req = (PassThrough, cs, []))"
  by (simp add: fetch_ts_eligible fetch_ts_not_eligible respond_ts_taken respond_js_taken
      fetch_js_def)

theorem C1_scope_filter_witness:
  "fetch_ts (env_up resp_basic) [] req_post = (PassThrough, [], []) \<and>
   fetch_ts (env_up resp_basic) [] req_foreign = (PassThrough, [], []) \<and>
   fst (fetch_ts (env_up resp_basic) [] req_scans) \<noteq> PassThrough \<and>
   fetch_js (env_up resp_basic) [] req_post = (PassThrough, [], []) \<and>
   fst (fetch_js (env_up resp_basic) [] req_scans) \<noteq> PassThrough"
proof -
  have a: "\<not> isEligible (env_up resp_basic) req_post"
    by (simp add: isEligible_def req_post_def)
  have b: "\<not> isEligible (env_up resp_basic) req_foreign"
    by (simp add: isEligible_def req_foreign_def env_up_def)
  have c: "isEligible (env_up resp_basic) req_scans"
    by (simp add: isEligible_def req_scans_def env_up_def)
  have d: "method req_post \<noteq> ''GET''" "method req_scans = ''GET''"
    by (simp_all add: req_post_def req_scans_def)
  show ?thesis
    using a b c d C1_scope_filter [of "env_up resp_basic" req_post "[]"]
      C1_scope_filter [of "env_up resp_basic" req_foreign "[]"]
      C1_scope_filter [of "env_up resp_basic" req_scans "[]"]
    by blast
qed

subsection \<open>C2: network failure on a miss\<close>

text \<open>
  C2 as the specification states it fails on service-worker.js, whose catch handler logs
  the error and throws it again: on a miss with the network down the promise given to
  \<^verbatim>\<open>respondWith\<close> rejects, and no 503 response is made.
\<close>

theorem C2_js_rethrows:
  "method req_scans = ''GET'' \<and> caches_match [] req_scans = None \<and>
   fetch env_down req_scans = Inl NetworkError \<and>
   fetch_js env_down [] req_scans = (Rejected NetworkError, [], [])"
  by (simp add: req_scans_def env_down_def fetch_js_def respond_js_def)

text \<open>
  C2, amended. In service-worker.ts, an eligible request that misses the cache and whose
  fetch fails is answered with the fixed response of status 503 and the fixed body, and
  the promise does not reject. In service-worker.js, a GET request that misses and whose
  fetch fails is answered with a rejection carrying the fetch error; nothing is stored and
  no work is started.
\<close>

theorem C2_network_failure:
  "(isEligible e req \<and> open_ok e \<and> cache_match cs CACHE_NAME req = None \<and>
      fetch e req = Inl err \<longrightarrow>
      fst (fetch_ts e cs req) = Responded unavailable \<and> status unavailable = 503 \<and>
      body unavailable = ''Network request failed and no cache available'') \<and>
   (method req = ''GET'' \<and> caches_match cs req = None \<and> fetch e req = Inl err \<longrightarrow>
      fetch_js e cs req = (Rejected err, cs, []))"
  by (simp add: fetch_ts_eligible respond_ts_miss unavailable_def fetch_js_def respond_js_def)

theorem C2_network_failure_witness:
  "fst (fetch_ts env_down [] req_scans) = Responded unavailable \<and> status unavailable = 503 \<and>
   fetch_js env_down [] req_scans = (Rejected NetworkError, [], [])"
proof -
  have "isEligible env_down req_scans \<and> open_ok env_down \<and>
      cache_match [] CACHE_NAME req_scans = None \<and> fetch env_down req_scans = Inl NetworkError"
    by (simp add: isEligible_def req_scans_def env_down_def cache_match_def)
  moreover have "method req_scans = ''GET'' \<and> caches_match [] req_scans = None \<and>
      fetch env_down req_scans = Inl NetworkError"
    by (simp add: req_scans_def env_down_def)
  ultimately show ?thesis
    using C2_network_failure [of env_down req_scans "[]" NetworkError] by blast
qed

subsection \<open>C3: what may be written\<close>

text \<open>
  C3 at a failing input. Claim: every write, on the miss path and on the revalidation
  path, stores only success-status basic responses, and revalidation uses the criteria of
  the miss path. In service-worker.js the revalidation tests \<^verbatim>\<open>status === 200\<close> only,
  while the miss path of the same file also tests \<^verbatim>\<open>type !== 'basic'\<close>: a hit on
  \<open>req_scans\<close> whose revalidation fetch yields a status 200 response of type cors ends
  with that response stored. service-worker.ts, at the same input, stores nothing.
\<close>

theorem C3_js_revalidation_stores_cors:
  "fetch_js (env_up resp_cors) store_hit req_scans =
     (Responded resp_old, store_hit, [Revalidate req_scans]) \<and>
   settle_js (env_up resp_cors) (fetch_js (env_up resp_cors) store_hit req_scans) =
     [(CACHE_NAME, [(req_scans, resp_cors)])] \<and>
   rtype resp_cors = Cors \<and>
   settle_ts (env_up resp_cors) (fetch_ts (env_up resp_cors) store_hit req_scans) = store_hit"
  by (simp add: fetch_js_def respond_js_def settle_js_def revalidate_js_def refresh_js_def
      put_dropped_def try_put_def cache_put_def put_entry_def caches_open_def caches_keys_def store_hit_def
      env_up_def req_scans_def resp_cors_def resp_old_def CACHE_NAME_def
      fetch_ts_def respond_ts_def settle_ts_def revalidate_ts_def cache_match_def ok_def)

subsection \<open>C4: the activation sweep\<close>




subsection \<open>C5: preloading\<close>

text \<open>
  C5 as the specification states it fails on service-worker.ts, which preloads with one
  \<^verbatim>\<open>cache.addAll\<close>: when \<^verbatim>\<open>/api/network/map\<close> cannot be fetched and \<^verbatim>\<open>/api/scans\<close>
  can, the installation completes and the cache is empty, the valid URL included.
\<close>

theorem C5_ts_addAll_all_or_nothing:
  "fetch (env_only ''/api/scans'' resp_basic)
     (preload_request (env_only ''/api/scans'' resp_basic) ''/api/scans'') = Inr resp_basic \<and>
   ok resp_basic \<and>
   install_ts (env_only ''/api/scans'' resp_basic) [] = (Installed, [(CACHE_NAME, [])]) \<and>
   cache_match (snd (install_ts (env_only ''/api/scans'' resp_basic) [])) CACHE_NAME
     (preload_request (env_only ''/api/scans'' resp_basic) ''/api/scans'') = None"
  by (simp add: install_ts_def cache_addAll_def urlsToCache_ts_def env_only_def
      preload_request_def caches_open_def caches_keys_def cache_match_def ok_def resp_basic_def)

text \<open>
  C5, amended. Both install listeners complete the installation whatever fails. In
  service-worker.js preloading is per entry: after an installation that could open the
  cache, every URL of the preload set whose fetch gave an \<^verbatim>\<open>ok\<close> response that could be
  written has that response in the store, and a URL whose fetch failed or was not
  \<^verbatim>\<open>ok\<close> has the entry it had before (none, in a fresh store). In service-worker.ts
  preloading is all or nothing: if the fetch of one URL of the preload set fails or is not
  \<^verbatim>\<open>ok\<close>, the installation adds no entry at all.
\<close>

theorem C5_preload:
  "fst (install_js e cs) = Installed \<and> fst (install_ts e cs) = Installed \<and>
   (open_ok e \<and> u \<in> set urlsToCache_js \<and> fetch e (preload_request e u) = Inr r \<and> ok r \<and>
      put_ok e (preload_request e u) r \<longrightarrow>
      cache_match (snd (install_js e cs)) CACHE_NAME (preload_request e u) = Some r) \<and>
   (fetch e (preload_request e v) = Inl err \<or>
      (fetch e (preload_request e v) = Inr r' \<and> \<not> ok r') \<longrightarrow>
      cache_match (snd (install_js e cs)) CACHE_NAME (preload_request e v) =
        cache_match cs CACHE_NAME (preload_request e v)) \<and>
   (open_ok e \<and> v \<in> set urlsToCache_ts \<and>
      (fetch e (preload_request e v) = Inl err \<or>
       (fetch e (preload_request e v) = Inr r' \<and> \<not> ok r')) \<longrightarrow>
      snd (install_ts e cs) = caches_open cs CACHE_NAME)"
proof -
  have stored: "cache_match (snd (install_js e cs)) CACHE_NAME (preload_request e u) = Some r"
    if "open_ok e" "u \<in> set urlsToCache_js" "fetch e (preload_request e u) = Inr r" "ok r"
      "put_ok e (preload_request e u) r"
    using that by (simp add: install_js_def preload_js_stored keys_open)
  have skipped: "cache_match (snd (install_js e cs)) CACHE_NAME (preload_request e v) =
      cache_match cs CACHE_NAME (preload_request e v)"
    if "fetch e (preload_request e v) = Inl err \<or>
      (fetch e (preload_request e v) = Inr r' \<and> \<not> ok r')"
  proof (cases "open_ok e")
    case True
    have "cache_match (fold (add_js e) urlsToCache_js (caches_open cs CACHE_NAME)) CACHE_NAME
        (preload_request e v) = cache_match (caches_open cs CACHE_NAME) CACHE_NAME (preload_request e v)"
      using that by (intro preload_js_skipped [where err = err and r = r']) (auto simp: keys_open)
    with True show ?thesis
      by (simp add: install_js_def cache_match_open)
  next
    case False
    then show ?thesis by (simp add: install_js_def)
  qed
  have atomic: "snd (install_ts e cs) = caches_open cs CACHE_NAME"
    if "open_ok e" "v \<in> set urlsToCache_ts"
      "fetch e (preload_request e v) = Inl err \<or>
       (fetch e (preload_request e v) = Inr r' \<and> \<not> ok r')"
    using install_ts_all_or_nothing [OF that] by simp
  show ?thesis
    using stored skipped atomic install_always_completes [of e cs] by blast
qed

theorem C5_preload_witness:
  "fst (install_js (env_only ''/manifest.json'' resp_basic) []) = Installed \<and>
   cache_match (snd (install_js (env_only ''/manifest.json'' resp_basic) [])) CACHE_NAME
     (preload_request (env_only ''/manifest.json'' resp_basic) ''/manifest.json'') = Some resp_basic \<and>
   cache_match (snd (install_js (env_only ''/manifest.json'' resp_basic) [])) CACHE_NAME
     (preload_request (env_only ''/manifest.json'' resp_basic) ''/'') = None \<and>
   snd (install_ts (env_only ''/api/scans'' resp_basic) []) = [(CACHE_NAME, [])]"
proof -
  let ?e = "env_only ''/manifest.json'' resp_basic"
  let ?t = "env_only ''/api/scans'' resp_basic"
  have a: "open_ok ?e \<and> ''/manifest.json'' \<in> set urlsToCache_js \<and>
      fetch ?e (preload_request ?e ''/manifest.json'') = Inr resp_basic \<and> ok resp_basic \<and>
      put_ok ?e (preload_request ?e ''/manifest.json'') resp_basic"
    by (simp add: env_only_def urlsToCache_js_def preload_request_def ok_def resp_basic_def)
  have b: "fetch ?e (preload_request ?e ''/'') = Inl NetworkError"
    by (simp add: env_only_def preload_request_def)
  have c: "cache_match [] CACHE_NAME (preload_request ?e ''/'') = None"
    by (simp add: cache_match_def)
  have d: "open_ok ?t \<and> ''/api/network/map'' \<in> set urlsToCache_ts \<and>
      fetch ?t (preload_request ?t ''/api/network/map'') = Inl NetworkError"
    by (simp add: env_only_def urlsToCache_ts_def preload_request_def)
  have f: "caches_open [] CACHE_NAME = [(CACHE_NAME, [])]"
    by (simp add: caches_open_def caches_keys_def)
  show ?thesis
    using a b c d f
      C5_preload [of ?e "[]" "''/manifest.json''" resp_basic "''/''" NetworkError]
      C5_preload [of ?t "[]" _ _ "''/api/network/map''" NetworkError]
    by simp
qed

subsection \<open>C6: a hit answers from the store\<close>

text \<open>
  C6. On a hit, both workers answer with the stored response whatever the network does
  (\<open>f\<close> is any behaviour of \<^verbatim>\<open>fetch\<close>): the result is the stored response, the storage
  as it was, and exactly one unit of work left pending, the revalidation of this request,
  which the answer did not wait for.
\<close>

theorem C6_hit_answers_from_store:
  "(isEligible e req \<and> open_ok e \<and> cache_match cs CACHE_NAME req = Some cached \<longrightarrow>
      fetch_ts (e\<lparr>fetch := f\<rparr>) cs req = (Responded cached, cs, [Revalidate req])) \<and>
   (method req = ''GET'' \<and> caches_match cs req = Some cached \<longrightarrow>
      fetch_js (e\<lparr>fetch := f\<rparr>) cs req = (Responded cached, cs, [Revalidate req]))"
proof -
  have "isEligible (e\<lparr>fetch := f\<rparr>) req = isEligible e req"
    by (simp add: isEligible_def)
  then show ?thesis
    by (simp add: fetch_ts_eligible respond_ts_hit fetch_js_def respond_js_hit)
qed

theorem C6_hit_answers_from_store_witness:
  "fetch_ts (env_down\<lparr>fetch := fetch (env_up resp_basic)\<rparr>) store_hit req_scans =
     (Responded resp_old, store_hit, [Revalidate req_scans]) \<and>
   fetch_js (env_down\<lparr>fetch := fetch (env_up resp_basic)\<rparr>) store_hit req_scans =
     (Responded resp_old, store_hit, [Revalidate req_scans])"
proof -
  have "isEligible env_down req_scans \<and> open_ok env_down \<and>
      cache_match store_hit CACHE_NAME req_scans = Some resp_old"
    by (simp add: isEligible_def req_scans_def env_down_def cache_match_def store_hit_def)
  moreover have "method req_scans = ''GET'' \<and> caches_match store_hit req_scans = Some resp_old"
    by (simp add: req_scans_def store_hit_def)
  ultimately show ?thesis
    using C6_hit_answers_from_store
      [of env_down req_scans store_hit resp_old "fetch (env_up resp_basic)"]
    by blast
qed

subsection \<open>C7: a failing store write on a miss\<close>

text \<open>
  C7 at a failing input. Claim: on a miss with a cacheable response, a failure of the
  store write is caught and ignored, and the fetched response is returned unchanged. In
  service-worker.js the answer is indeed the fetched response, but when \<^verbatim>\<open>cache.put\<close>
  rejects, the rejection is received by no handler: the catch that warns
  \<^verbatim>\<open>'Failed to cache response:'\<close> follows a callback that does not return the promise
  of the put, so it receives a failing \<^verbatim>\<open>caches.open\<close> only. service-worker.ts, at the
  same input, awaits the put inside its try and leaves nothing pending.
\<close>

theorem C7_js_put_rejection_unhandled:
  "fetch_js (env_quota resp_basic) [] req_scans =
     (Responded resp_basic, [], [StorePut req_scans resp_basic]) \<and>
   run_task_js (env_quota resp_basic) (StorePut req_scans resp_basic) [] =
     ([(CACHE_NAME, [])], Unhandled StoreError) \<and>
   run_task_js ((env_quota resp_basic)\<lparr>open_ok := False\<rparr>) (StorePut req_scans resp_basic) [] =
     ([], Caught StoreError) \<and>
   fetch_ts (env_quota resp_basic) [] req_scans =
     (Responded resp_basic, [(CACHE_NAME, [])], [])"
  by (simp add: fetch_js_def respond_js_def store_js_def put_dropped_def try_put_def
      caches_open_def caches_keys_def env_quota_def req_scans_def resp_basic_def
      fetch_ts_def respond_ts_def cache_match_def ok_def)

subsection \<open>C8: hit idempotence\<close>

text \<open>
  C8. While the store holds \<open>r\<close> for a request, both workers answer the request with
  \<open>r\<close> and leave the storage at delivery as it was, so a repeated request (under any
  environment \<open>e'\<close>) is answered with \<open>r\<close> again, and so is the request against any storage
  \<open>cs'\<close> that holds \<open>r\<close> for it. Once the pending revalidation has run, under any
  environment \<open>e1\<close>: if its fetch failed, or its response was refused by the worker's
  test, or the write failed, every answer of the store is as before and the request is
  still answered with \<open>r\<close>; if it wrote a fresh response, service-worker.ts answers with
  the fresh one, and service-worker.js answers with \<open>r\<close> or with the fresh one (with
  the fresh one when the current cache is the only cache, since \<^verbatim>\<open>caches.match\<close>
  searches the older caches first). In no case does the revalidation change the answer
  for another key \<open>k\<close>.
\<close>

theorem C8_hit_idempotent:
  "(isEligible e req \<and> open_ok e \<and> isEligible e' req \<and> open_ok e' \<and>
      cache_match cs CACHE_NAME req = Some r \<longrightarrow>
      fetch_ts e cs req = (Responded r, cs, [Revalidate req]) \<and>
      fst (fetch_ts e' (fst (snd (fetch_ts e cs req))) req) = Responded r \<and>
      (cache_match cs' CACHE_NAME req = Some r \<longrightarrow> fst (fetch_ts e' cs' req) = Responded r) \<and>
      (fetch e1 req = Inr networkResponse \<and> ok networkResponse \<and> rtype networkResponse = Basic \<and>
         put_ok e1 req networkResponse \<longrightarrow>
         fst (fetch_ts e' (settle_ts e1 (fetch_ts e cs req)) req) = Responded networkResponse) \<and>
      (fetch e1 req = Inl err \<or>
         (fetch e1 req = Inr networkResponse \<and>
          (\<not> ok networkResponse \<or> rtype networkResponse \<noteq> Basic \<or>
           \<not> put_ok e1 req networkResponse)) \<longrightarrow>
         settle_ts e1 (fetch_ts e cs req) = cs \<and>
         fst (fetch_ts e' (settle_ts e1 (fetch_ts e cs req)) req) = Responded r) \<and>
      (k \<noteq> req \<longrightarrow>
         cache_match (settle_ts e1 (fetch_ts e cs req)) name k = cache_match cs name k)) \<and>
   (method req = ''GET'' \<and> caches_match cs req = Some r \<longrightarrow>
      fetch_js e cs req = (Responded r, cs, [Revalidate req]) \<and>
      fst (fetch_js e' (fst (snd (fetch_js e cs req))) req) = Responded r \<and>
      (caches_match cs' req = Some r \<longrightarrow> fst (fetch_js e' cs' req) = Responded r) \<and>
      (fetch e1 req = Inr networkResponse \<and> status networkResponse = 200 \<and> open_ok e1 \<and>
         put_ok e1 req networkResponse \<longrightarrow>
         (fst (fetch_js e' (settle_js e1 (fetch_js e cs req)) req) = Responded r \<or>
          fst (fetch_js e' (settle_js e1 (fetch_js e cs req)) req) = Responded networkResponse) \<and>
         (caches_keys cs = [CACHE_NAME] \<longrightarrow>
          fst (fetch_js e' (settle_js e1 (fetch_js e cs req)) req) = Responded networkResponse)) \<and>
      (fetch e1 req = Inl err \<or>
         (fetch e1 req = Inr networkResponse \<and>
          (status networkResponse \<noteq> 200 \<or> \<not> open_ok e1 \<or>
           \<not> put_ok e1 req networkResponse)) \<longrightarrow>
         caches_match (settle_js e1 (fetch_js e cs req)) k = caches_match cs k \<and>
         fst (fetch_js e' (settle_js e1 (fetch_js e cs req)) req) = Responded r) \<and>
      (k \<noteq> req \<longrightarrow> caches_match (settle_js e1 (fetch_js e cs req)) k = caches_match cs k))"
proof (intro conjI impI)
  assume h: "isEligible e req \<and> open_ok e \<and> isEligible e' req \<and> open_ok e' \<and>
      cache_match cs CACHE_NAME req = Some r"
  then have present: "CACHE_NAME \<in> set (caches_keys cs)"
    by (auto dest: cache_match_present)
  have s: "settle_ts e1 (fetch_ts e cs req) = revalidate_ts e1 cs req"
    using h by (simp add: settle_ts_hit)
  show "fetch_ts e cs req = (Responded r, cs, [Revalidate req])"
    using h by (simp add: fetch_ts_eligible respond_ts_hit)
  then show "fst (fetch_ts e' (fst (snd (fetch_ts e cs req))) req) = Responded r"
    using h by (simp add: fetch_ts_answer)
  show "fst (fetch_ts e' cs' req) = Responded r" if "cache_match cs' CACHE_NAME req = Some r"
    using h that by (simp add: fetch_ts_answer)
  show "fst (fetch_ts e' (settle_ts e1 (fetch_ts e cs req)) req) = Responded networkResponse"
    if "fetch e1 req = Inr networkResponse \<and> ok networkResponse \<and>
      rtype networkResponse = Basic \<and> put_ok e1 req networkResponse"
  proof -
    have "cache_match (revalidate_ts e1 cs req) CACHE_NAME req = Some networkResponse"
      using that present by (simp add: revalidate_ts_overwrites)
    then show ?thesis
      using h s by (simp add: fetch_ts_answer)
  qed
  show "cache_match (settle_ts e1 (fetch_ts e cs req)) name k = cache_match cs name k"
    if "k \<noteq> req"
    using that s by (simp add: revalidate_ts_other_keys)
  assume b: "fetch e1 req = Inl err \<or>
      (fetch e1 req = Inr networkResponse \<and>
       (\<not> ok networkResponse \<or> rtype networkResponse \<noteq> Basic \<or>
        \<not> put_ok e1 req networkResponse))"
  show same: "settle_ts e1 (fetch_ts e cs req) = cs"
    unfolding s using b by (rule revalidate_ts_unchanged)
  show "fst (fetch_ts e' (settle_ts e1 (fetch_ts e cs req)) req) = Responded r"
    unfolding same using h by (simp add: fetch_ts_answer)
next
  assume h: "method req = ''GET'' \<and> caches_match cs req = Some r"
  have s: "settle_js e1 (fetch_js e cs req) = fst (revalidate_js e1 cs req)"
    using h by (simp add: settle_js_hit)
  show "fetch_js e cs req = (Responded r, cs, [Revalidate req])"
    using h by (simp add: fetch_js_def respond_js_hit)
  then show "fst (fetch_js e' (fst (snd (fetch_js e cs req))) req) = Responded r"
    using h by (simp add: fetch_js_answer)
  show "fst (fetch_js e' cs' req) = Responded r" if "caches_match cs' req = Some r"
    using h that by (simp add: fetch_js_answer)
  show "caches_match (settle_js e1 (fetch_js e cs req)) k = caches_match cs k" if "k \<noteq> req"
    using that s by (simp add: revalidate_js_other_keys)
  {
    assume w: "fetch e1 req = Inr networkResponse \<and> status networkResponse = 200 \<and>
        open_ok e1 \<and> put_ok e1 req networkResponse"
    have m: "(caches_match (fst (revalidate_js e1 cs req)) req = Some r \<or>
        caches_match (fst (revalidate_js e1 cs req)) req = Some networkResponse) \<and>
       (caches_keys cs = [CACHE_NAME] \<longrightarrow>
        caches_match (fst (revalidate_js e1 cs req)) req = Some networkResponse)"
      using w h by (intro revalidate_js_written) simp_all
    show "fst (fetch_js e' (settle_js e1 (fetch_js e cs req)) req) = Responded r \<or>
        fst (fetch_js e' (settle_js e1 (fetch_js e cs req)) req) = Responded networkResponse"
      unfolding s using m h by (auto simp: fetch_js_answer)
    show "fst (fetch_js e' (settle_js e1 (fetch_js e cs req)) req) = Responded networkResponse"
      if "caches_keys cs = [CACHE_NAME]"
      unfolding s using m h that by (simp add: fetch_js_answer)
  }
  assume b: "fetch e1 req = Inl err \<or>
      (fetch e1 req = Inr networkResponse \<and>
       (status networkResponse \<noteq> 200 \<or> \<not> open_ok e1 \<or> \<not> put_ok e1 req networkResponse))"
  have same: "caches_match (fst (revalidate_js e1 cs req)) k' = caches_match cs k'" for k'
    using b by (rule revalidate_js_unchanged)
  show "caches_match (settle_js e1 (fetch_js e cs req)) k = caches_match cs k"
    unfolding s by (rule same)
  show "fst (fetch_js e' (settle_js e1 (fetch_js e cs req)) req) = Responded r"
    unfolding s using h by (simp add: fetch_js_answer same)
qed

theorem C8_hit_idempotent_witness:
  "fetch_ts env_down store_hit req_scans = (Responded resp_old, store_hit, [Revalidate req_scans]) \<and>
   fst (fetch_ts env_down (settle_ts env_down (fetch_ts env_down store_hit req_scans)) req_scans) =
     Responded resp_old \<and>
   fst (fetch_ts env_down (settle_ts (env_up resp_404) (fetch_ts env_down store_hit req_scans))
     req_scans) = Responded resp_old \<and>
   fst (fetch_ts env_down (settle_ts (env_quota resp_basic) (fetch_ts env_down store_hit req_scans))
     req_scans) = Responded resp_old \<and>
   fst (fetch_ts env_down (settle_ts (env_up resp_basic) (fetch_ts env_down store_hit req_scans))
     req_scans) = Responded resp_basic \<and>
   fetch_js env_down store_hit req_scans = (Responded resp_old, store_hit, [Revalidate req_scans]) \<and>
   fst (fetch_js env_down (settle_js env_down (fetch_js env_down store_hit req_scans)) req_scans) =
     Responded resp_old \<and>
   fst (fetch_js env_down (settle_js (env_up resp_404) (fetch_js env_down store_hit req_scans))
     req_scans) = Responded resp_old \<and>
   fst (fetch_js env_down (settle_js (env_quota resp_basic) (fetch_js env_down store_hit req_scans))
     req_scans) = Responded resp_old \<and>
   fst (fetch_js env_down (settle_js (env_up resp_basic) (fetch_js env_down store_hit req_scans))
     req_scans) = Responded resp_basic"
proof -
  have ts: "isEligible env_down req_scans \<and> open_ok env_down \<and> isEligible env_down req_scans \<and>
      open_ok env_down \<and> cache_match store_hit CACHE_NAME req_scans = Some resp_old"
    by (simp add: isEligible_def req_scans_def env_down_def cache_match_def store_hit_def)
  have js: "method req_scans = ''GET'' \<and> caches_match store_hit req_scans = Some resp_old"
    by (simp add: req_scans_def store_hit_def)
  have down: "fetch env_down req_scans = Inl NetworkError"
    by (simp add: env_down_def)
  have nf: "fetch (env_up resp_404) req_scans = Inr resp_404" "\<not> ok resp_404"
    "status resp_404 \<noteq> 200"
    by (simp_all add: env_up_def ok_def resp_404_def)
  have quota: "fetch (env_quota resp_basic) req_scans = Inr resp_basic"
    "\<not> put_ok (env_quota resp_basic) req_scans resp_basic"
    by (simp_all add: env_quota_def)
  have fresh: "fetch (env_up resp_basic) req_scans = Inr resp_basic \<and> ok resp_basic \<and>
      rtype resp_basic = Basic \<and> put_ok (env_up resp_basic) req_scans resp_basic"
    "fetch (env_up resp_basic) req_scans = Inr resp_basic \<and> status resp_basic = 200 \<and>
      open_ok (env_up resp_basic) \<and> put_ok (env_up resp_basic) req_scans resp_basic"
    "caches_keys store_hit = [CACHE_NAME]"
    by (simp_all add: env_up_def ok_def resp_basic_def caches_keys_def store_hit_def)
  note c8 = C8_hit_idempotent [where e = env_down and e' = env_down and req = req_scans
      and cs = store_hit and r = resp_old]
  from ts js down c8 [where ?e1.0 = env_down and err = NetworkError]
  have a: "fetch_ts env_down store_hit req_scans =
      (Responded resp_old, store_hit, [Revalidate req_scans])"
    "fst (fetch_ts env_down (settle_ts env_down (fetch_ts env_down store_hit req_scans)) req_scans) =
      Responded resp_old"
    "fetch_js env_down store_hit req_scans =
      (Responded resp_old, store_hit, [Revalidate req_scans])"
    "fst (fetch_js env_down (settle_js env_down (fetch_js env_down store_hit req_scans)) req_scans) =
      Responded resp_old"
    by blast+
  from ts js nf c8 [where ?e1.0 = "env_up resp_404" and networkResponse = resp_404]
  have b: "fst (fetch_ts env_down (settle_ts (env_up resp_404) (fetch_ts env_down store_hit req_scans))
      req_scans) = Responded resp_old"
    "fst (fetch_js env_down (settle_js (env_up resp_404) (fetch_js env_down store_hit req_scans))
      req_scans) = Responded resp_old"
    by blast+
  from ts js quota c8 [where ?e1.0 = "env_quota resp_basic" and networkResponse = resp_basic]
  have c: "fst (fetch_ts env_down (settle_ts (env_quota resp_basic) (fetch_ts env_down store_hit req_scans))
      req_scans) = Responded resp_old"
    "fst (fetch_js env_down (settle_js (env_quota resp_basic) (fetch_js env_down store_hit req_scans))
      req_scans) = Responded resp_old"
    by blast+
  from ts js fresh c8 [where ?e1.0 = "env_up resp_basic" and networkResponse = resp_basic]
  have d: "fst (fetch_ts env_down (settle_ts (env_up resp_basic) (fetch_ts env_down store_hit req_scans))
      req_scans) = Responded resp_basic"
    "fst (fetch_js env_down (settle_js (env_up resp_basic) (fetch_js env_down store_hit req_scans))
      req_scans) = Responded resp_basic"
    by blast+
  from a b c d show ?thesis by blast
qed

subsection \<open>C9: only GET keys are written\<close>

text \<open>
  C9. Both listeners return before \<^verbatim>\<open>respondWith\<close> for a request that is not GET, with
  the storage untouched and no work started; hence a storage whose keys are all GET
  requests still has only GET keys after a fetch event, both when the answer is delivered
  and when the pending work has run.
\<close>

theorem C9_only_get_keys:
  "(method req \<noteq> ''GET'' \<longrightarrow>
      fetch_ts e cs req = (PassThrough, cs, []) \<and> fetch_js e cs req = (PassThrough, cs, [])) \<and>
   (all_get cs \<longrightarrow>
      all_get (fst (snd (fetch_ts e cs req))) \<and> all_get (settle_ts e' (fetch_ts e cs req)) \<and>
      all_get (fst (snd (fetch_js e cs req))) \<and> all_get (settle_js e' (fetch_js e cs req)))"
proof -
  have ts: "all_get (fst (snd (fetch_ts e cs req))) \<and> all_get (settle_ts e' (fetch_ts e cs req))"
    if "all_get cs"
  proof (cases "isEligible e req")
    case True
    then have "method req = ''GET''" by (simp add: isEligible_def)
    with True that show ?thesis
      by (simp add: fetch_ts_eligible all_get_respond_ts all_get_settle_ts)
  next
    case False
    with that show ?thesis
      by (simp add: fetch_ts_not_eligible settle_ts_def)
  qed
  have js: "all_get (fst (snd (fetch_js e cs req))) \<and> all_get (settle_js e' (fetch_js e cs req))"
    if "all_get cs"
  proof (cases "method req = ''GET''")
    case True
    with that show ?thesis
      by (simp add: fetch_js_def all_get_respond_js all_get_settle_js)
  next
    case False
    with that show ?thesis
      by (simp add: fetch_js_def settle_js_def)
  qed
  show ?thesis
    using ts js by (simp add: fetch_ts_def fetch_js_def)
qed

theorem C9_only_get_keys_witness:
  "fetch_ts (env_up resp_basic) store_hit req_post = (PassThrough, store_hit, []) \<and>
   fetch_js (env_up resp_basic) store_hit req_post = (PassThrough, store_hit, []) \<and>
   all_get (settle_ts (env_up resp_basic) (fetch_ts (env_up resp_basic) store_hit req_scans)) \<and>
   all_get (settle_js (env_up resp_basic) (fetch_js (env_up resp_basic) store_hit req_scans))"
proof -
  have a: "method req_post \<noteq> ''GET''"
    by (simp add: req_post_def)
  have b: "all_get store_hit"
    by (simp add: all_get_def store_hit_def req_scans_def)
  show ?thesis
    using a b
      C9_only_get_keys [of req_post "env_up resp_basic" store_hit]
      C9_only_get_keys [of req_scans "env_up resp_basic" store_hit "env_up resp_basic"]
    by blast
qed

subsection \<open>C10: the awaited write of service-worker.ts\<close>

text \<open>
  C10. In service-worker.ts, on a miss with a cacheable response, no work is pending when
  the answer is delivered: the write has been attempted. If it succeeded the storage
  holds the response for the request, and the next identical request is answered with it
  from the store; if it failed the storage is the opened cache, unchanged.
\<close>

theorem C10_miss_write_awaited:
  "isEligible e req \<and> open_ok e \<and> cache_match cs CACHE_NAME req = None \<and>
     fetch e req = Inr networkResponse \<and> ok networkResponse \<and> rtype networkResponse = Basic \<longrightarrow>
   fst (fetch_ts e cs req) = Responded networkResponse \<and>
   snd (snd (fetch_ts e cs req)) = [] \<and>
   (if put_ok e req networkResponse
    then cache_match (fst (snd (fetch_ts e cs req))) CACHE_NAME req = Some networkResponse \<and>
         (isEligible e' req \<and> open_ok e' \<longrightarrow>
            fst (fetch_ts e' (fst (snd (fetch_ts e cs req))) req) = Responded networkResponse)
    else fst (snd (fetch_ts e cs req)) = caches_open cs CACHE_NAME)"
  by (auto simp: fetch_ts_eligible respond_ts_miss try_put_def cache_match_put keys_open
      respond_ts_hit)

theorem C10_miss_write_awaited_witness:
  "fetch_ts (env_up resp_basic) [] req_scans =
     (Responded resp_basic, [(CACHE_NAME, [(req_scans, resp_basic)])], []) \<and>
   fst (fetch_ts env_down (fst (snd (fetch_ts (env_up resp_basic) [] req_scans))) req_scans) =
     Responded resp_basic"
proof -
  have a: "isEligible (env_up resp_basic) req_scans \<and> open_ok (env_up resp_basic) \<and>
      cache_match [] CACHE_NAME req_scans = None \<and>
      fetch (env_up resp_basic) req_scans = Inr resp_basic \<and> ok resp_basic \<and>
      rtype resp_basic = Basic"
    by (simp add: isEligible_def req_scans_def env_up_def cache_match_def ok_def resp_basic_def)
  have b: "put_ok (env_up resp_basic) req_scans resp_basic"
    by (simp add: env_up_def)
  have c: "isEligible env_down req_scans \<and> open_ok env_down"
    by (simp add: isEligible_def req_scans_def env_down_def)
  have d: "fetch_ts (env_up resp_basic) [] req_scans =
     (Responded resp_basic, [(CACHE_NAME, [(req_scans, resp_basic)])], [])"
    by (simp add: fetch_ts_def respond_ts_def req_scans_def env_up_def caches_open_def
        caches_keys_def cache_match_def try_put_def cache_put_def put_entry_def ok_def resp_basic_def)
  show ?thesis
    using a b c d C10_miss_write_awaited [of "env_up resp_basic" req_scans "[]" resp_basic env_down]
    by simp
qed

end
